theory Spec2Isabelle
  imports Main "HOL-Library.Word"
begin

section \<open>Data model of the bridge\<close>

text \<open>
  The bridge (\<^verbatim>\<open>ros2_to_serial_bridge_main.cpp\<close>) moves frames between a serial
  transporter and the bus. A frame carries a topic id (\<^verbatim>\<open>topic_id_size_t\<close>, an unsigned
  8-bit integer) and a payload of bytes.
\<close>

type_synonym topic_id_size_t = "8 word"
type_synonym byte = "8 word"

text \<open>
  \<^verbatim>\<open>TopicMapping\<close> (namespace \<^verbatim>\<open>ros2_to_serial_bridge::pubsub\<close>): the fields the bridge
  assigns are \<^verbatim>\<open>serial_mapping\<close>, \<^verbatim>\<open>type\<close> and \<^verbatim>\<open>direction\<close>; the direction is one of
  \<^verbatim>\<open>UNKNOWN\<close>, \<^verbatim>\<open>SERIAL_TO_ROS2\<close>, \<^verbatim>\<open>ROS2_TO_SERIAL\<close>.
\<close>

datatype Direction = UNKNOWN | SERIAL_TO_ROS2 | ROS2_TO_SERIAL

record TopicMapping =
  serial_mapping :: topic_id_size_t
  type :: string
  direction :: Direction

text \<open>
  The table \<^verbatim>\<open>std::map<std::string, TopicMapping>\<close> is a finite map from topic names to
  entries.
\<close>

type_synonym topic_table = "string \<rightharpoonup> TopicMapping"

text \<open>
  \<^verbatim>\<open>ros2_serial_msgs::msg::SerialMapping\<close>, the negotiation response: four parallel
  sequences. The field the source calls \<^verbatim>\<open>direction\<close> is \<open>directions\<close> here, since
  \<open>direction\<close> is the field of \<open>TopicMapping\<close>.
\<close>

record SerialMapping =
  topic_names :: "string list"
  serial_mappings :: "byte list"
  types :: "string list"
  directions :: "byte list"

text \<open>
  What the bridge takes from headers and libraries that are not part of the translated
  file: the two direction codes of the \<^verbatim>\<open>SerialMapping\<close> message, the value of a
  default-constructed \<^verbatim>\<open>TopicMapping()\<close>, the bytes the message codec writes for an
  \<^verbatim>\<open>std_msgs::msg::Empty\<close> request (\<^verbatim>\<open>getSerializedDataLength\<close> of them), and the codec's
  \<^verbatim>\<open>cdr_deserialize\<close> of a \<^verbatim>\<open>SerialMapping\<close>, which yields \<open>None\<close> where Fast-CDR throws
  \<^verbatim>\<open>NotEnoughMemoryException\<close>.
\<close>

record externals =
  SERIALTOROS2 :: byte
  ROS2TOSERIAL :: byte
  TopicMapping_init :: TopicMapping
  empty_request :: "byte list"
  cdr_deserialize :: "byte list \<Rightarrow> SerialMapping option"

text \<open>Every \<^verbatim>\<open>throw\<close> of the translated functions is a value of this type.\<close>

datatype error =
    FailedToWriteDynamicMessage
  | NotEnoughMemoryForDeserialization
  | NoResponseToDynamicSerialRequest
  | MustAllBeTheSameSize
  | UnknownDirectionForTopic
  | InvalidParameterDotPosition
  | InvalidParameterSecondDotPosition
  | InvalidDirectionForTopic
  | InvalidParameterName
  | ParameterTypeException
  | SubstrOutOfRange
  | InvalidTopicMapping

section \<open>The transporter and the clock as the bridge sees them\<close>

text \<open>
  One call of \<^verbatim>\<open>transporter_->read(&topic_ID, data_buffer, BUFFER_SIZE)\<close> gives a
  length (\<^verbatim>\<open>ssize_t\<close>: positive for a frame, zero for a timeout, negative for an error),
  the topic id it stored and the buffer's contents.
\<close>

record read_result =
  len :: int
  topic_ID :: topic_id_size_t
  data :: "byte list"

text \<open>The payload of a frame: the first \<open>len\<close> bytes of the buffer.\<close>

definition payload :: "read_result \<Rightarrow> byte list" where
  "payload r = take (nat (len r)) (data r)"

text \<open>
  The calls a function makes on its collaborators, in order: the trace against which
  ordering claims are stated.
\<close>

datatype future_status = ready | timeout | deferred

datatype event =
    EvWrite topic_id_size_t "byte list"
  | EvRead read_result
  | EvDispatch topic_id_size_t "byte list"
  | EvWaitFor future_status
  | EvSetValue
  | EvJoin
  | EvClose

text \<open>
  What the environment does during a negotiation: the result of the one
  \<^verbatim>\<open>transporter_->write\<close>, the reading of \<^verbatim>\<open>system_clock::now()\<close> taken before the wait
  loop, and for each iteration of the loop the result of its read and the reading of the
  clock taken in that iteration (used only when \<^verbatim>\<open>wait_ms > 0\<close>). Clock readings count
  the ticks of \<^verbatim>\<open>system_clock\<close>, which are nanoseconds. The list is finite: an iteration
  past its end means that the loop is still running when the script ends.
\<close>

record world =
  write_result :: int
  start_time :: int
  iterations :: "(read_result \<times> int) list"

section \<open>The negotiation: \<^verbatim>\<open>dynamically_get_serial_mapping\<close>\<close>

text \<open>
  \<^verbatim>\<open>duration_cast<milliseconds>(now - start)\<close> truncates towards zero; the assignment to
  \<^verbatim>\<open>duration<uint64_t, std::milli>\<close> then reads the signed count as an unsigned 64-bit
  one.
\<close>

definition duration_cast_ms :: "int \<Rightarrow> int" where
  "duration_cast_ms d = (if 0 \<le> d then d div 1000000 else - ((- d) div 1000000))"

definition elapsed_ms :: "int \<Rightarrow> int \<Rightarrow> 64 word" where
  "elapsed_ms start now = word_of_int (duration_cast_ms (now - start))"

text \<open>
  The two nested tests that guard deserialisation: \<^verbatim>\<open>length > 0\<close>, then
  \<^verbatim>\<open>topic_ID == 1\<close>. Neither has an \<^verbatim>\<open>else\<close>: a read that fails either test falls
  through to the clock.
\<close>

definition is_response :: "read_result \<Rightarrow> bool" where
  "is_response r = (0 < len r \<and> topic_ID r = 1)"

text \<open>
  The \<^verbatim>\<open>do ... while (diff_ms.count() < wait_ms)\<close> loop. It returns the reads it made
  and how it ended: \<open>None\<close> when the script ends with the loop still running,
  \<open>Some (Inl e)\<close> for a throw, \<open>Some (Inr None)\<close> when it leaves with \<^verbatim>\<open>got_response\<close>
  false, \<open>Some (Inr (Some msg))\<close> when it breaks with the deserialised message.
\<close>

fun wait_for_response ::
  "externals \<Rightarrow> 64 word \<Rightarrow> int \<Rightarrow> 64 word \<Rightarrow> (read_result \<times> int) list
    \<Rightarrow> event list \<times> (error + SerialMapping option) option" where
  "wait_for_response x wait_ms start diff_ms [] = ([], None)"
| "wait_for_response x wait_ms start diff_ms ((r, now) # rest) =
     (if is_response r then
        (case cdr_deserialize x (payload r) of
           None \<Rightarrow> ([EvRead r], Some (Inl NotEnoughMemoryForDeserialization))
         | Some msg \<Rightarrow> ([EvRead r], Some (Inr (Some msg))))
      else
        (let diff_ms' = (if 0 < wait_ms then elapsed_ms start now else diff_ms) in
         if diff_ms' < wait_ms then
           (case wait_for_response x wait_ms start diff_ms' rest of
              (tr, res) \<Rightarrow> (EvRead r # tr, res))
         else ([EvRead r], Some (Inr None))))"

text \<open>
  \<^verbatim>\<open>table[name]\<close> on a \<^verbatim>\<open>std::map\<close> inserts a default-constructed entry when the key
  is absent; \<^verbatim>\<open>table[name].field = v\<close> then assigns the field.
\<close>

definition at_key :: "externals \<Rightarrow> topic_table \<Rightarrow> string \<Rightarrow> TopicMapping" where
  "at_key x t name = (case t name of None \<Rightarrow> TopicMapping_init x | Some e \<Rightarrow> e)"

definition assign_field ::
  "externals \<Rightarrow> topic_table \<Rightarrow> string \<Rightarrow> (TopicMapping \<Rightarrow> TopicMapping) \<Rightarrow> topic_table" where
  "assign_field x t name f = t(name \<mapsto> f (at_key x t name))"

text \<open>One iteration of the \<^verbatim>\<open>for\<close> loop over the response, at index \<open>i\<close>.\<close>

definition add_entry ::
  "externals \<Rightarrow> SerialMapping \<Rightarrow> nat \<Rightarrow> topic_table \<Rightarrow> error + topic_table" where
  "add_entry x msg i t =
     (let topic_name = topic_names msg ! i;
          t1 = t(topic_name \<mapsto> TopicMapping_init x);
          t2 = assign_field x t1 topic_name (\<lambda>e. e\<lparr>serial_mapping := serial_mappings msg ! i\<rparr>);
          t3 = assign_field x t2 topic_name (\<lambda>e. e\<lparr>type := types msg ! i\<rparr>);
          d = directions msg ! i
      in if d = SERIALTOROS2 x then
           Inr (assign_field x t3 topic_name (\<lambda>e. e\<lparr>direction := SERIAL_TO_ROS2\<rparr>))
         else if d = ROS2TOSERIAL x then
           Inr (assign_field x t3 topic_name (\<lambda>e. e\<lparr>direction := ROS2_TO_SERIAL\<rparr>))
         else Inl UnknownDirectionForTopic)"

text \<open>The \<^verbatim>\<open>for\<close> loop, over the indices it visits; a throw ends it.\<close>

fun add_entries ::
  "externals \<Rightarrow> SerialMapping \<Rightarrow> nat list \<Rightarrow> topic_table \<Rightarrow> error + topic_table" where
  "add_entries x msg [] t = Inr t"
| "add_entries x msg (i # is) t =
     (case add_entry x msg i t of
        Inl e \<Rightarrow> Inl e
      | Inr t' \<Rightarrow> add_entries x msg is t')"

text \<open>
  The statements after the wait loop, once a response is there: the size check, which
  makes every index of the loop valid in all four sequences, and the loop.
\<close>

definition table_of_response :: "externals \<Rightarrow> SerialMapping \<Rightarrow> error + topic_table" where
  "table_of_response x msg =
     (if length (topic_names msg) \<noteq> length (serial_mappings msg) \<or>
         length (topic_names msg) \<noteq> length (types msg) \<or>
         length (topic_names msg) \<noteq> length (directions msg)
      then Inl MustAllBeTheSameSize
      else add_entries x msg [0 ..< length (topic_names msg)] Map.empty)"

text \<open>
  The whole function. The request is written first, on topic 0; a negative result throws
  before any read.
\<close>

definition dynamically_get_serial_mapping ::
  "externals \<Rightarrow> world \<Rightarrow> 64 word \<Rightarrow> event list \<times> (error + topic_table) option" where
  "dynamically_get_serial_mapping x w wait_ms =
     (if write_result w < 0 then
        ([EvWrite 0 (empty_request x)], Some (Inl FailedToWriteDynamicMessage))
      else
        (case wait_for_response x wait_ms (start_time w) 0 (iterations w) of
           (tr, None) \<Rightarrow> (EvWrite 0 (empty_request x) # tr, None)
         | (tr, Some (Inl e)) \<Rightarrow> (EvWrite 0 (empty_request x) # tr, Some (Inl e))
         | (tr, Some (Inr None)) \<Rightarrow>
             (EvWrite 0 (empty_request x) # tr, Some (Inl NoResponseToDynamicSerialRequest))
         | (tr, Some (Inr (Some msg))) \<Rightarrow>
             (EvWrite 0 (empty_request x) # tr, Some (table_of_response x msg))))"

section \<open>The static table: \<^verbatim>\<open>parse_node_parameters_for_topics\<close>\<close>

text \<open>
  The node's parameters as \<^verbatim>\<open>list_parameters({}, 0)\<close> lists them, each name with the
  value \<^verbatim>\<open>get_parameter(name)\<close> gives. \<^verbatim>\<open>get_value<int64_t>()\<close> and
  \<^verbatim>\<open>get_value<std::string>()\<close> throw on a value of another type.
\<close>

datatype parameter_value =
    PARAMETER_NOT_SET
  | PARAMETER_BOOL bool
  | PARAMETER_INTEGER int
  | PARAMETER_STRING string
  | PARAMETER_OTHER

text \<open>\<^verbatim>\<open>std::string::find_first_of(c, pos)\<close>: \<open>None\<close> is \<^verbatim>\<open>npos\<close>.\<close>

fun first_index :: "char \<Rightarrow> string \<Rightarrow> nat option" where
  "first_index c [] = None"
| "first_index c (a # s) = (if a = c then Some 0 else map_option Suc (first_index c s))"

definition find_first_of :: "string \<Rightarrow> char \<Rightarrow> nat \<Rightarrow> nat option" where
  "find_first_of s c pos = map_option (\<lambda>i. pos + i) (first_index c (drop pos s))"

text \<open>
  \<^verbatim>\<open>std::string::substr(pos, n)\<close> throws \<^verbatim>\<open>std::out_of_range\<close> when \<^verbatim>\<open>pos > size()\<close> and
  otherwise stops at the end of the string.
\<close>

definition substr :: "string \<Rightarrow> nat \<Rightarrow> nat \<Rightarrow> error + string" where
  "substr s pos n = (if length s < pos then Inl SubstrOutOfRange else Inr (take n (drop pos s)))"

text \<open>The last part of the loop body: the branch on \<^verbatim>\<open>param_name\<close>.\<close>

definition set_topic_parameter ::
  "externals \<Rightarrow> string \<Rightarrow> string \<Rightarrow> parameter_value \<Rightarrow> topic_table \<Rightarrow> error + topic_table" where
  "set_topic_parameter x topic_name param_name v t =
     (if param_name = ''serial_mapping'' then
        (case v of
           PARAMETER_INTEGER serial_mapping' \<Rightarrow>
             Inr (assign_field x t topic_name
                    (\<lambda>e. e\<lparr>serial_mapping := word_of_int serial_mapping'\<rparr>))
         | _ \<Rightarrow> Inl ParameterTypeException)
      else if param_name = ''type'' then
        (case v of
           PARAMETER_STRING ty \<Rightarrow> Inr (assign_field x t topic_name (\<lambda>e. e\<lparr>type := ty\<rparr>))
         | _ \<Rightarrow> Inl ParameterTypeException)
      else if param_name = ''direction'' then
        (case v of
           PARAMETER_STRING dirstring \<Rightarrow>
             (if dirstring = ''SerialToROS2'' then
                Inr (assign_field x t topic_name (\<lambda>e. e\<lparr>direction := SERIAL_TO_ROS2\<rparr>))
              else if dirstring = ''ROS2ToSerial'' then
                Inr (assign_field x t topic_name (\<lambda>e. e\<lparr>direction := ROS2_TO_SERIAL\<rparr>))
              else Inl InvalidDirectionForTopic)
         | _ \<Rightarrow> Inl ParameterTypeException)
      else Inl InvalidParameterName)"

text \<open>
  The body of the loop over the parameter names; \<open>Inr t\<close> with the table unchanged is
  \<^verbatim>\<open>continue\<close>. The two differences of \<^verbatim>\<open>size_t\<close> values are differences of positions
  and lengths within \<open>name\<close>, the smaller subtracted from the larger: the second dot
  lies behind the first, and \<open>topics\<close> and \<open>topic_name\<close> are disjoint pieces of \<open>name\<close>.
\<close>

definition parse_parameter ::
  "externals \<Rightarrow> string \<Rightarrow> parameter_value \<Rightarrow> topic_table \<Rightarrow> error + topic_table" where
  "parse_parameter x name v t =
     (if count_list name CHR ''.'' \<noteq> 2 then Inr t
      else case find_first_of name CHR ''.'' 0 of
        None \<Rightarrow> Inl InvalidParameterDotPosition
      | Some first_dot_pos \<Rightarrow>
         (case substr name 0 first_dot_pos of
            Inl e \<Rightarrow> Inl e
          | Inr topics \<Rightarrow>
             if topics \<noteq> ''topics'' then Inr t
             else if first_dot_pos = length name then Inr t
             else case find_first_of name CHR ''.'' (first_dot_pos + 1) of
               None \<Rightarrow> Inl InvalidParameterSecondDotPosition
             | Some second_dot_pos \<Rightarrow>
                (case substr name (first_dot_pos + 1) (second_dot_pos - first_dot_pos - 1) of
                   Inl e \<Rightarrow> Inl e
                 | Inr topic_name \<Rightarrow>
                    if second_dot_pos = length name then Inr t
                    else case substr name (second_dot_pos + 1)
                                (length name - length topic_name - length topics) of
                      Inl e \<Rightarrow> Inl e
                    | Inr param_name \<Rightarrow>
                       set_topic_parameter x topic_name param_name v
                         (if t topic_name = None
                          then (t(topic_name \<mapsto> TopicMapping_init x)) else t))))"

fun parse_parameters ::
  "externals \<Rightarrow> (string \<times> parameter_value) list \<Rightarrow> topic_table \<Rightarrow> error + topic_table" where
  "parse_parameters x [] t = Inr t"
| "parse_parameters x ((name, v) # ps) t =
     (case parse_parameter x name v t of
        Inl e \<Rightarrow> Inl e
      | Inr t' \<Rightarrow> parse_parameters x ps t')"

definition parse_node_parameters_for_topics ::
  "externals \<Rightarrow> (string \<times> parameter_value) list \<Rightarrow> error + topic_table" where
  "parse_node_parameters_for_topics x params = parse_parameters x params Map.empty"

section \<open>Start-up, the reader thread and tear-down\<close>

text \<open>
  The statement of the constructor \<^verbatim>\<open>ROS2SerialBridge()\<close> that fills its local
  \<^verbatim>\<open>topic_names_and_serialization\<close>: the negotiation when the \<^verbatim>\<open>int64_t\<close> parameter
  \<^verbatim>\<open>dynamic_serial_mapping_ms\<close> is positive (it is passed on as the \<^verbatim>\<open>uint64_t\<close>
  \<^verbatim>\<open>wait_ms\<close>), the node's parameters otherwise. An exception of either leaves the
  constructor.
\<close>

definition topic_names_and_serialization ::
  "externals \<Rightarrow> world \<Rightarrow> (string \<times> parameter_value) list \<Rightarrow> 64 word
    \<Rightarrow> event list \<times> (error + topic_table) option" where
  "topic_names_and_serialization x w params dynamic_serial_mapping_ms =
     (if 0 <s dynamic_serial_mapping_ms then
        dynamically_get_serial_mapping x w dynamic_serial_mapping_ms
      else ([], Some (parse_node_parameters_for_topics x params)))"



text \<open>
  \<^verbatim>\<open>read_thread_func\<close>: each iteration reads, dispatches when the length is positive, and
  asks the future whether the exit signal has been set; the loop goes on while the answer
  is \<^verbatim>\<open>timeout\<close>. The script gives, for each iteration, the result of the read and of
  \<^verbatim>\<open>wait_for\<close>; \<open>None\<close> means that the loop is still running when the script ends.
\<close>

fun read_thread_func :: "(read_result \<times> future_status) list \<Rightarrow> event list option" where
  "read_thread_func [] = None"
| "read_thread_func ((r, status) # rest) =
     (let tr = (if 0 < len r then [EvRead r, EvDispatch (topic_ID r) (payload r)]
                else [EvRead r]) @ [EvWaitFor status]
      in if status = timeout then map_option (\<lambda>tr'. tr @ tr') (read_thread_func rest)
         else Some tr)"

text \<open>
  The destructor \<^verbatim>\<open>~ROS2SerialBridge\<close> works on the promise, the reader thread and the
  transporter; each of its three calls is recorded in \<open>calls\<close>.
\<close>

record bridge =
  exit_signal_set :: bool
  read_thread_joined :: bool
  transporter_closed :: bool
  calls :: "event list"

definition exit_signal_set_value :: "bridge \<Rightarrow> bridge" where
  "exit_signal_set_value b = b\<lparr>exit_signal_set := True, calls := calls b @ [EvSetValue]\<rparr>"

definition read_thread_join :: "bridge \<Rightarrow> bridge" where
  "read_thread_join b = b\<lparr>read_thread_joined := True, calls := calls b @ [EvJoin]\<rparr>"

definition transporter_close :: "bridge \<Rightarrow> bridge" where
  "transporter_close b = b\<lparr>transporter_closed := True, calls := calls b @ [EvClose]\<rparr>"

definition destructor :: "bridge \<Rightarrow> bridge" where
  "destructor b = transporter_close (read_thread_join (exit_signal_set_value b))"

section \<open>Example inputs\<close>

text \<open>
  Concrete inputs on which the statements below are evaluated. The codec of the examples
  decodes a one-byte payload: \<open>[1]\<close> is a response that names \<open>chatter\<close> twice,
  \<open>[2]\<close> a response whose \<open>directions\<close> sequence is short, \<open>[3]\<close> one with a direction
  code that is neither constant, \<open>[4]\<close> one that maps a topic to serial id 0; any
  other payload makes it throw. It writes no byte for the \<^verbatim>\<open>Empty\<close> request; the codec
  of \<open>placeholder_byte_externals\<close> writes one, the placeholder member that a generated
  message without fields carries. In \<open>answering_world b\<close> the peer answers in the third
  iteration, 60 ms after the start, with payload \<open>[b]\<close>; before that a read times out
  and a frame on topic 7 arrives. In \<open>silent_world\<close> a read times out after 50 ms and
  the next one fails after 120 ms; \<open>unwritable_world\<close> is the same with a failing write.
\<close>

definition example_response :: SerialMapping where
  "example_response =
     \<lparr>topic_names = [''chatter'', ''imu'', ''chatter''],
      serial_mappings = [5, 6, 7],
      types = [''std_msgs/String'', ''sensor_msgs/Imu'', ''std_msgs/Empty''],
      directions = [1, 1, 0]\<rparr>"

definition short_response :: SerialMapping where
  "short_response =
     \<lparr>topic_names = [''chatter'', ''imu''],
      serial_mappings = [5, 6],
      types = [''std_msgs/String'', ''sensor_msgs/Imu''],
      directions = [1]\<rparr>"

definition unknown_direction_response :: SerialMapping where
  "unknown_direction_response =
     \<lparr>topic_names = [''chatter''], serial_mappings = [5],
      types = [''std_msgs/String''], directions = [9]\<rparr>"

definition reserved_id_response :: SerialMapping where
  "reserved_id_response =
     \<lparr>topic_names = [''chatter''], serial_mappings = [0],
      types = [''std_msgs/String''], directions = [0]\<rparr>"

definition example_cdr_deserialize :: "byte list \<Rightarrow> SerialMapping option" where
  "example_cdr_deserialize bs =
     (if bs = [1] then Some example_response
      else if bs = [2] then Some short_response
      else if bs = [3] then Some unknown_direction_response
      else if bs = [4] then Some reserved_id_response
      else None)"

definition example_externals :: externals where
  "example_externals =
     \<lparr>SERIALTOROS2 = 0, ROS2TOSERIAL = 1,
      TopicMapping_init = \<lparr>serial_mapping = 0, type = [], direction = UNKNOWN\<rparr>,
      empty_request = [],
      cdr_deserialize = example_cdr_deserialize\<rparr>"


definition answering_world :: "byte \<Rightarrow> world" where
  "answering_world b =
     \<lparr>write_result = 0, start_time = 1000000000,
      iterations =
        [(\<lparr>len = 0, topic_ID = 0, data = []\<rparr>, 1020000000),
         (\<lparr>len = 2, topic_ID = 7, data = [1, 1]\<rparr>, 1040000000),
         (\<lparr>len = 1, topic_ID = 1, data = [b, 0]\<rparr>, 1060000000),
         (\<lparr>len = 1, topic_ID = 1, data = [1, 0]\<rparr>, 1080000000)]\<rparr>"

definition silent_world :: world where
  "silent_world =
     \<lparr>write_result = 0, start_time = 1000000000,
      iterations =
        [(\<lparr>len = 0, topic_ID = 0, data = []\<rparr>, 1050000000),
         (\<lparr>len = - 1, topic_ID = 1, data = [1]\<rparr>, 1120000000),
         (\<lparr>len = 1, topic_ID = 1, data = [1]\<rparr>, 1130000000)]\<rparr>"


definition example_params :: "(string \<times> parameter_value) list" where
  "example_params =
     [(''device'', PARAMETER_STRING ''/dev/ttyACM0''),
      (''topics.chatter.serial_mapping'', PARAMETER_INTEGER 1),
      (''topics.chatter.type'', PARAMETER_STRING ''std_msgs/String''),
      (''topics.chatter.direction'', PARAMETER_STRING ''SerialToROS2'')]"

definition failing_reads :: "(read_result \<times> future_status) list" where
  "failing_reads =
     [(\<lparr>len = - 1, topic_ID = 0, data = []\<rparr>, timeout),
      (\<lparr>len = 0, topic_ID = 0, data = []\<rparr>, timeout),
      (\<lparr>len = 2, topic_ID = 5, data = [8, 9, 0]\<rparr>, ready)]"

section \<open>Facts about the model\<close>

subsection \<open>The wait loop\<close>

lemma wait_for_response_diff_ms:
  "wait_for_response x wait_ms start d s = wait_for_response x wait_ms start d' s"
proof (cases s)
  case Nil
  then show ?thesis by simp
next
  case (Cons a rest)
  obtain r now where a: "a = (r, now)" by (cases a)
  show ?thesis
  proof (cases "0 < wait_ms")
    case True
    then show ?thesis using Cons a by simp
  next
    case False
    then have "wait_ms = 0" by (simp add: word_gt_0)
    then show ?thesis using Cons a by simp
  qed
qed

lemma wait_for_response_skip:
  assumes "\<forall>(r, now) \<in> set pre. \<not> is_response r \<and> elapsed_ms start now < wait_ms"
  shows "wait_for_response x wait_ms start d (pre @ rest) =
           (map (EvRead \<circ> fst) pre @ fst (wait_for_response x wait_ms start d rest),
            snd (wait_for_response x wait_ms start d rest))"
  using assms
proof (induction pre arbitrary: d)
  case Nil
  then show ?case by simp
next
  case (Cons a pre)
  obtain r now where a: "a = (r, now)" by (cases a)
  from Cons.prems a have nr: "\<not> is_response r" and el: "elapsed_ms start now < wait_ms"
    and rest: "\<forall>(r, now) \<in> set pre. \<not> is_response r \<and> elapsed_ms start now < wait_ms"
    by auto
  from el have pos: "0 < wait_ms" by (cases "wait_ms = 0") (auto simp: word_gt_0)
  have ih: "wait_for_response x wait_ms start (elapsed_ms start now) (pre @ rest) =
           (map (EvRead \<circ> fst) pre @ fst (wait_for_response x wait_ms start d rest),
            snd (wait_for_response x wait_ms start d rest))"
    using Cons.IH [OF rest, of "elapsed_ms start now"]
      wait_for_response_diff_ms [of x wait_ms start "elapsed_ms start now" rest d]
    by simp
  show ?case using a nr el pos ih by simp
qed

lemma wait_for_response_expired:
  assumes "\<not> is_response r" "\<not> elapsed_ms start now < wait_ms"
  shows "wait_for_response x wait_ms start d ((r, now) # post) = ([EvRead r], Some (Inr None))"
proof (cases "0 < wait_ms")
  case True
  then show ?thesis using assms by simp
next
  case False
  then have "wait_ms = 0" by (simp add: word_gt_0)
  then show ?thesis using assms by simp
qed


lemma dynamically_get_serial_mapping_response:
  assumes "snd (wait_for_response x wait_ms (start_time w) 0 (iterations w)) = Some (Inr (Some msg))"
    and "0 \<le> write_result w"
  shows "snd (dynamically_get_serial_mapping x w wait_ms) = Some (table_of_response x msg)"
  using assms by (auto simp: dynamically_get_serial_mapping_def split: prod.splits)

subsection \<open>Building the table from a response\<close>

lemma TopicMapping_all_fields:
  "e\<lparr>serial_mapping := a, type := b, direction := c\<rparr> =
     \<lparr>serial_mapping = a, type = b, direction = c\<rparr>"
  by (cases e) simp

lemma add_entry_eq:
  "add_entry x msg i t =
     (if directions msg ! i = SERIALTOROS2 x \<or> directions msg ! i = ROS2TOSERIAL x then
        Inr (t(topic_names msg ! i \<mapsto>
               \<lparr>serial_mapping = serial_mappings msg ! i, type = types msg ! i,
                direction = (if directions msg ! i = SERIALTOROS2 x then SERIAL_TO_ROS2
                             else ROS2_TO_SERIAL)\<rparr>))
      else Inl UnknownDirectionForTopic)"
  by (cases "TopicMapping_init x") (simp add: add_entry_def assign_field_def at_key_def Let_def)

lemma add_entries_snoc:
  "add_entries x msg (js @ [i]) t =
     (case add_entries x msg js t of Inl e \<Rightarrow> Inl e | Inr t' \<Rightarrow> add_entry x msg i t')"
  by (induction js arbitrary: t) (auto split: sum.splits)

lemma add_entries_Inl:
  "add_entries x msg js t = Inl e \<Longrightarrow>
     e = UnknownDirectionForTopic \<and>
     (\<exists>i \<in> set js. directions msg ! i \<noteq> SERIALTOROS2 x \<and> directions msg ! i \<noteq> ROS2TOSERIAL x)"
proof (induction js arbitrary: t)
  case Nil
  then show ?case by simp
next
  case (Cons i js)
  show ?case
  proof (cases "add_entry x msg i t")
    case (Inl e')
    then show ?thesis using Cons.prems by (auto simp: add_entry_eq split: if_splits)
  next
    case (Inr t')
    then show ?thesis using Cons.prems Cons.IH [of t'] by auto
  qed
qed

lemma add_entries_Inr:
  "add_entries x msg js t = Inr t' \<Longrightarrow>
     \<forall>i \<in> set js. directions msg ! i = SERIALTOROS2 x \<or> directions msg ! i = ROS2TOSERIAL x"
proof (induction js arbitrary: t)
  case Nil
  then show ?case by simp
next
  case (Cons i js)
  show ?case
  proof (cases "add_entry x msg i t")
    case (Inl e')
    then show ?thesis using Cons.prems by simp
  next
    case (Inr t'')
    then show ?thesis using Cons.prems Cons.IH [of t''] by (auto simp: add_entry_eq split: if_splits)
  qed
qed

lemma add_entries_upt:
  "add_entries x msg [0 ..< k] Map.empty = Inr t \<Longrightarrow>
     dom t = (\<lambda>i. topic_names msg ! i) ` {..<k} \<and>
     (\<forall>i < k. (\<forall>j. i < j \<and> j < k \<longrightarrow> topic_names msg ! j \<noteq> topic_names msg ! i) \<longrightarrow>
        t (topic_names msg ! i) =
          Some \<lparr>serial_mapping = serial_mappings msg ! i, type = types msg ! i,
                direction = (if directions msg ! i = SERIALTOROS2 x then SERIAL_TO_ROS2
                             else ROS2_TO_SERIAL)\<rparr>)"
proof (induction k arbitrary: t)
  case 0
  then show ?case by simp
next
  case (Suc k)
  from Suc.prems obtain t' where t': "add_entries x msg [0 ..< k] Map.empty = Inr t'"
    and step: "add_entry x msg k t' = Inr t"
    by (auto simp: add_entries_snoc split: sum.splits)
  from step have t: "t = t'(topic_names msg ! k \<mapsto>
       \<lparr>serial_mapping = serial_mappings msg ! k, type = types msg ! k,
        direction = (if directions msg ! k = SERIALTOROS2 x then SERIAL_TO_ROS2
                     else ROS2_TO_SERIAL)\<rparr>)"
    by (auto simp: add_entry_eq split: if_splits)
  note ih = Suc.IH [OF t']
  have "dom t = insert (topic_names msg ! k) (dom t')" using t by simp
  also have "\<dots> = (\<lambda>i. topic_names msg ! i) ` {..<Suc k}"
    using ih by (auto simp: lessThan_Suc)
  finally have d: "dom t = (\<lambda>i. topic_names msg ! i) ` {..<Suc k}" .
  have l: "t (topic_names msg ! i) =
          Some \<lparr>serial_mapping = serial_mappings msg ! i, type = types msg ! i,
                direction = (if directions msg ! i = SERIALTOROS2 x then SERIAL_TO_ROS2
                             else ROS2_TO_SERIAL)\<rparr>"
    if i: "i < Suc k"
      and last: "\<forall>j. i < j \<and> j < Suc k \<longrightarrow> topic_names msg ! j \<noteq> topic_names msg ! i" for i
  proof (cases "i = k")
    case True
    then show ?thesis using t by simp
  next
    case False
    with i have ik: "i < k" by simp
    from last ik have ne: "topic_names msg ! k \<noteq> topic_names msg ! i" by simp
    from last have "\<forall>j. i < j \<and> j < k \<longrightarrow> topic_names msg ! j \<noteq> topic_names msg ! i" by simp
    with ih ik show ?thesis using t ne by simp
  qed
  from d l show ?case by blast
qed

lemma table_of_response_Inr:
  assumes "table_of_response x msg = Inr t"
  shows "length (serial_mappings msg) = length (topic_names msg)"
    and "length (types msg) = length (topic_names msg)"
    and "length (directions msg) = length (topic_names msg)"
    and "add_entries x msg [0 ..< length (topic_names msg)] Map.empty = Inr t"
  using assms by (auto simp: table_of_response_def split: if_splits)

lemma last_occurrence:
  "name \<in> set xs \<Longrightarrow>
     \<exists>i < length xs. xs ! i = name \<and> (\<forall>j. i < j \<and> j < length xs \<longrightarrow> xs ! j \<noteq> name)"
proof (induction xs rule: rev_induct)
  case Nil
  then show ?case by simp
next
  case (snoc a xs)
  show ?case
  proof (cases "a = name")
    case True
    then have "(xs @ [a]) ! length xs = name \<and>
        (\<forall>j. length xs < j \<and> j < length (xs @ [a]) \<longrightarrow> (xs @ [a]) ! j \<noteq> name)"
      by auto
    then show ?thesis by (metis length_append_singleton lessI)
  next
    case False
    with snoc.prems have "name \<in> set xs" by simp
    from snoc.IH [OF this] obtain i where i: "i < length xs" "xs ! i = name"
      "\<forall>j. i < j \<and> j < length xs \<longrightarrow> xs ! j \<noteq> name" by blast
    have "\<forall>j. i < j \<and> j < length (xs @ [a]) \<longrightarrow> (xs @ [a]) ! j \<noteq> name"
      using i(3) False by (auto simp: nth_append less_Suc_eq)
    moreover have "(xs @ [a]) ! i = name" using i by (simp add: nth_append)
    moreover have "i < length (xs @ [a])" using i by simp
    ultimately show ?thesis by blast
  qed
qed

lemma table_of_response_entry:
  assumes "table_of_response x msg = Inr t" and "t name = Some e"
  shows "\<exists>i < length (topic_names msg). topic_names msg ! i = name \<and>
           e = \<lparr>serial_mapping = serial_mappings msg ! i, type = types msg ! i,
                direction = (if directions msg ! i = SERIALTOROS2 x then SERIAL_TO_ROS2
                             else ROS2_TO_SERIAL)\<rparr> \<and>
           (directions msg ! i = SERIALTOROS2 x \<or> directions msg ! i = ROS2TOSERIAL x)"
proof -
  note ae = table_of_response_Inr(4) [OF assms(1)]
  note inv = add_entries_upt [OF ae]
  have "(\<lambda>i. topic_names msg ! i) ` {..<length (topic_names msg)} = set (topic_names msg)"
    by (auto simp: set_conv_nth)
  with inv assms(2) have "name \<in> set (topic_names msg)" by auto
  from last_occurrence [OF this] obtain i where i: "i < length (topic_names msg)"
    "topic_names msg ! i = name"
    "\<forall>j. i < j \<and> j < length (topic_names msg) \<longrightarrow> topic_names msg ! j \<noteq> name" by blast
  from inv i assms(2) have "e = \<lparr>serial_mapping = serial_mappings msg ! i, type = types msg ! i,
                direction = (if directions msg ! i = SERIALTOROS2 x then SERIAL_TO_ROS2
                             else ROS2_TO_SERIAL)\<rparr>"
    by auto
  moreover from add_entries_Inr [OF ae] i(1)
  have "directions msg ! i = SERIALTOROS2 x \<or> directions msg ! i = ROS2TOSERIAL x" by simp
  ultimately show ?thesis using i by blast
qed

lemma table_of_response_accepts:
  "(\<exists>t. table_of_response x msg = Inr t) =
     (length (topic_names msg) = length (serial_mappings msg) \<and>
      length (topic_names msg) = length (types msg) \<and>
      length (topic_names msg) = length (directions msg) \<and>
      (\<forall>i < length (directions msg).
         directions msg ! i = SERIALTOROS2 x \<or> directions msg ! i = ROS2TOSERIAL x))"
proof (cases "length (topic_names msg) = length (serial_mappings msg) \<and>
      length (topic_names msg) = length (types msg) \<and>
      length (topic_names msg) = length (directions msg)")
  case False
  then show ?thesis by (auto simp: table_of_response_def)
next
  case True
  then have "table_of_response x msg =
      add_entries x msg [0 ..< length (topic_names msg)] Map.empty"
    by (simp add: table_of_response_def)
  with True have eq: "table_of_response x msg =
      add_entries x msg [0 ..< length (directions msg)] Map.empty"
    by metis
  show ?thesis
  proof (cases "add_entries x msg [0 ..< length (directions msg)] Map.empty")
    case (Inl e)
    from add_entries_Inl [OF Inl] show ?thesis using eq Inl True by auto
  next
    case (Inr t)
    from add_entries_Inr [OF Inr] show ?thesis using eq Inr True by auto
  qed
qed

lemma table_of_response_unknown:
  assumes "length (topic_names msg) = length (serial_mappings msg)"
    "length (topic_names msg) = length (types msg)"
    "length (topic_names msg) = length (directions msg)"
    "i < length (directions msg)"
    "directions msg ! i \<noteq> SERIALTOROS2 x" "directions msg ! i \<noteq> ROS2TOSERIAL x"
  shows "table_of_response x msg = Inl UnknownDirectionForTopic"
proof (cases "table_of_response x msg")
  case (Inl e)
  then show ?thesis using assms(1-3) add_entries_Inl [of x msg _ Map.empty e]
    by (auto simp: table_of_response_def)
next
  case (Inr t)
  then have "\<exists>t. table_of_response x msg = Inr t" by blast
  then show ?thesis using assms(4-6) unfolding table_of_response_accepts by blast
qed

subsection \<open>Parameter names\<close>











subsection \<open>The table handed to \<^verbatim>\<open>ROS2Topics\<close>\<close>




subsection \<open>The reader loop\<close>

lemma read_thread_func_returns:
  "(\<exists>tr. read_thread_func script = Some tr) = (\<exists>(r, s) \<in> set script. s \<noteq> timeout)"
proof (induction script)
  case Nil
  then show ?case by simp
next
  case (Cons a script)
  obtain r s where a: "a = (r, s)" by (cases a)
  show ?case using Cons a by (cases "s = timeout") (auto simp: Let_def)
qed

lemma read_thread_func_reads:
  "read_thread_func script = Some tr \<Longrightarrow>
     length (filter (\<lambda>e. case e of EvRead _ \<Rightarrow> True | _ \<Rightarrow> False) tr) =
       Suc (length (takeWhile (\<lambda>(r, s). s = timeout) script))"
proof (induction script arbitrary: tr)
  case Nil
  then show ?case by simp
next
  case (Cons a script)
  obtain r s where a: "a = (r, s)" by (cases a)
  show ?case
  proof (cases "s = timeout")
    case True
    with Cons.prems a obtain tr' where tr': "read_thread_func script = Some tr'"
      and tr: "tr = (if 0 < len r then [EvRead r, EvDispatch (topic_ID r) (payload r)]
                else [EvRead r]) @ [EvWaitFor s] @ tr'"
      by (auto simp: Let_def)
    from Cons.IH [OF tr'] show ?thesis using a True tr by simp
  next
    case False
    with Cons.prems a show ?thesis by (auto simp: Let_def)
  qed
qed

subsection \<open>The example inputs evaluated\<close>

lemmas fixture_defs = example_response_def short_response_def unknown_direction_response_def
  reserved_id_response_def example_cdr_deserialize_def example_externals_def
  answering_world_def silent_world_def example_params_def failing_reads_def

lemmas eval_defs = is_response_def payload_def elapsed_ms_def duration_cast_ms_def

lemma sless_100: "0 <s (100 :: 64 word)"
  by (simp add: word_sless_alt)


lemma answering_world_response:
  "snd (wait_for_response example_externals 100 (start_time (answering_world b)) 0
          (iterations (answering_world b))) =
     Some (case example_cdr_deserialize [b] of
             None \<Rightarrow> Inl NotEnoughMemoryForDeserialization
           | Some msg \<Rightarrow> Inr (Some msg))"
  by (simp add: answering_world_def example_externals_def eval_defs split: option.splits)

lemma answering_world_1_response:
  "snd (wait_for_response example_externals 100 (start_time (answering_world 1)) 0
          (iterations (answering_world 1))) = Some (Inr (Some example_response))"
  by (simp add: answering_world_response example_cdr_deserialize_def)

lemma answering_world_write: "0 \<le> write_result (answering_world b)"
  by (simp add: answering_world_def)

lemma answering_world_1_table:
  "snd (dynamically_get_serial_mapping example_externals (answering_world 1) 100) =
     Some (Inr [''imu'' \<mapsto> \<lparr>serial_mapping = 6, type = ''sensor_msgs/Imu'',
                            direction = ROS2_TO_SERIAL\<rparr>,
                ''chatter'' \<mapsto> \<lparr>serial_mapping = 7, type = ''std_msgs/Empty'',
                                direction = SERIAL_TO_ROS2\<rparr>])"
  by (simp add: dynamically_get_serial_mapping_def table_of_response_def fixture_defs eval_defs
      add_entry_eq upt_rec)


lemma example_params_table:
  "parse_node_parameters_for_topics example_externals example_params =
     Inr [''chatter'' \<mapsto> \<lparr>serial_mapping = 1, type = ''std_msgs/String'',
                              direction = SERIAL_TO_ROS2\<rparr>]"
  by (simp add: parse_node_parameters_for_topics_def parse_parameter_def find_first_of_def
      substr_def set_topic_parameter_def assign_field_def at_key_def fixture_defs)


section \<open>The claims\<close>

subsection \<open>C1\<close>

text \<open>
  Claim C1. A negotiation response whose four sequences (topic names, serial mappings,
  types, directions) are not all of the same length is rejected: once the wait loop has
  obtained such a message, \<^verbatim>\<open>dynamically_get_serial_mapping\<close> throws "must all be the
  same size" and returns no table, whichever of the sequences is the short one. The
  hypotheses say that the request was written and that the wait loop ended with the
  message \<open>msg\<close>.
\<close>

theorem mismatched_sizes_rejected:
  assumes "snd (wait_for_response x wait_ms (start_time w) 0 (iterations w)) = Some (Inr (Some msg))"
    and "0 \<le> write_result w"
    and "\<not> (length (topic_names msg) = length (serial_mappings msg) \<and>
             length (topic_names msg) = length (types msg) \<and>
             length (topic_names msg) = length (directions msg))"
  shows "snd (dynamically_get_serial_mapping x w wait_ms) = Some (Inl MustAllBeTheSameSize)"
  using assms
  by (auto simp: dynamically_get_serial_mapping_def table_of_response_def split: prod.splits)

text \<open>
  The theorem at the response whose \<open>directions\<close> sequence is short.
\<close>

theorem mismatched_sizes_rejected_witness:
  "snd (wait_for_response example_externals 100 (start_time (answering_world 2)) 0
          (iterations (answering_world 2))) = Some (Inr (Some short_response))
   \<and> 0 \<le> write_result (answering_world 2)
   \<and> length (topic_names short_response) \<noteq> length (directions short_response)
   \<and> snd (dynamically_get_serial_mapping example_externals (answering_world 2) 100) =
       Some (Inl MustAllBeTheSameSize)"
proof -
  have h1: "snd (wait_for_response example_externals 100 (start_time (answering_world 2)) 0
          (iterations (answering_world 2))) = Some (Inr (Some short_response))"
    by (simp add: answering_world_response example_cdr_deserialize_def)
  have h2: "0 \<le> write_result (answering_world 2)" by (simp add: answering_world_def)
  have h3: "\<not> (length (topic_names short_response) = length (serial_mappings short_response) \<and>
             length (topic_names short_response) = length (types short_response) \<and>
             length (topic_names short_response) = length (directions short_response))"
    by (simp add: short_response_def)
  from mismatched_sizes_rejected [OF h1 h2 h3] h1 h2 show ?thesis
    by (simp add: short_response_def)
qed

subsection \<open>C2\<close>

text \<open>
  Claim C2. If no frame on topic 1 is received before the timeout expires, the negotiation
  throws and returns no table, not even an empty one. The script is split at the first
  iteration whose clock reading no longer lies below \<open>wait_ms\<close>: none of the reads up
  to and including that one is a frame on topic 1. The function then throws "no
  response" (or "failed to write" when the request could not be written).
\<close>

theorem negotiation_timeout_throws:
  assumes "iterations w = pre @ (r, now) # post"
    and "\<forall>(r', now') \<in> set pre. \<not> is_response r' \<and> elapsed_ms (start_time w) now' < wait_ms"
    and "\<not> is_response r"
    and "\<not> elapsed_ms (start_time w) now < wait_ms"
  shows "snd (dynamically_get_serial_mapping x w wait_ms) =
           Some (Inl (if write_result w < 0 then FailedToWriteDynamicMessage
                      else NoResponseToDynamicSerialRequest))"
proof -
  have "snd (wait_for_response x wait_ms (start_time w) 0 (iterations w)) = Some (Inr None)"
    using wait_for_response_skip [OF assms(2), of x 0 "(r, now) # post"]
      wait_for_response_expired [OF assms(3,4), of x 0 post] assms(1)
    by simp
  then show ?thesis
    by (auto simp: dynamically_get_serial_mapping_def split: prod.splits)
qed

text \<open>
  The theorem in the silent world: one read that times out after 50 ms, one that fails
  after 120 ms, with a budget of 100 ms.
\<close>

theorem negotiation_timeout_throws_witness:
  "snd (dynamically_get_serial_mapping example_externals silent_world 100) =
     Some (Inl NoResponseToDynamicSerialRequest)"
proof -
  let ?r1 = "\<lparr>len = 0, topic_ID = 0, data = []\<rparr> :: read_result"
  let ?r2 = "\<lparr>len = - 1, topic_ID = 1, data = [1]\<rparr> :: read_result"
  let ?r3 = "\<lparr>len = 1, topic_ID = 1, data = [1]\<rparr> :: read_result"
  have h1: "iterations silent_world = [(?r1, 1050000000)] @ (?r2, 1120000000) # [(?r3, 1130000000)]"
    by (simp add: silent_world_def)
  have h2: "\<forall>(r', now') \<in> set [(?r1, 1050000000)].
      \<not> is_response r' \<and> elapsed_ms (start_time silent_world) now' < 100"
    by (simp add: silent_world_def eval_defs)
  have h3: "\<not> is_response ?r2" by (simp add: eval_defs)
  have h4: "\<not> elapsed_ms (start_time silent_world) 1120000000 < 100"
    by (simp add: silent_world_def eval_defs)
  from negotiation_timeout_throws [OF h1 h2 h3 h4, of example_externals] show ?thesis
    by (simp add: silent_world_def)
qed

subsection \<open>C3\<close>

text \<open>
  Claim C3, as amended. The claim says that a negative result of \<^verbatim>\<open>Transporter.read\<close>
  ends the reader loop and is surfaced to the owner. The loop only tests
  \<^verbatim>\<open>length > 0\<close>: a negative result is treated like a zero result. What holds is that
  the loop returns exactly when \<^verbatim>\<open>wait_for\<close> reports something other than
  \<^verbatim>\<open>timeout\<close>, that it makes one read in every iteration up to that point whatever
  the reads return, and that after a zero or negative result, with the exit signal not
  set, nothing is dispatched and the loop goes on with the next read.
\<close>

theorem reader_loop_ends_on_exit_signal_only:
  "((\<exists>tr. read_thread_func script = Some tr) = (\<exists>(r, s) \<in> set script. s \<noteq> timeout))
   \<and> (\<forall>tr. read_thread_func script = Some tr \<longrightarrow>
         length (filter (\<lambda>e. case e of EvRead _ \<Rightarrow> True | _ \<Rightarrow> False) tr) =
           Suc (length (takeWhile (\<lambda>(r, s). s = timeout) script)))
   \<and> (len r \<le> 0 \<longrightarrow>
         read_thread_func ((r, timeout) # rest) =
           map_option (\<lambda>tr. EvRead r # EvWaitFor timeout # tr) (read_thread_func rest))"
proof -
  have "read_thread_func ((r, timeout) # rest) =
           map_option (\<lambda>tr. EvRead r # EvWaitFor timeout # tr) (read_thread_func rest)"
    if "len r \<le> 0"
    using that by (cases "read_thread_func rest") (simp_all add: Let_def)
  then show ?thesis
    using read_thread_func_returns [of script] read_thread_func_reads [of script]
    by blast
qed

text \<open>
  The theorem on three iterations: a failed read, a read that times out, and a frame
  on topic 5 in the iteration in which the exit signal is seen.
\<close>

theorem reader_loop_ends_on_exit_signal_only_witness:
  "(\<exists>tr. read_thread_func failing_reads = Some tr)
   \<and> length (filter (\<lambda>e. case e of EvRead _ \<Rightarrow> True | _ \<Rightarrow> False)
        [EvRead \<lparr>len = - 1, topic_ID = 0, data = []\<rparr>, EvWaitFor timeout,
         EvRead \<lparr>len = 0, topic_ID = 0, data = []\<rparr>, EvWaitFor timeout,
         EvRead \<lparr>len = 2, topic_ID = 5, data = [8, 9, 0]\<rparr>, EvDispatch 5 [8, 9],
         EvWaitFor ready]) = 3
   \<and> len \<lparr>len = - 1, topic_ID = 0, data = []\<rparr> \<le> 0
   \<and> read_thread_func failing_reads =
       map_option (\<lambda>tr. EvRead \<lparr>len = - 1, topic_ID = 0, data = []\<rparr> # EvWaitFor timeout # tr)
         (read_thread_func (tl failing_reads))"
proof -
  let ?r = "\<lparr>len = - 1, topic_ID = 0, data = []\<rparr> :: read_result"
  have f: "failing_reads = (?r, timeout) # tl failing_reads" by (simp add: failing_reads_def)
  have h: "len ?r \<le> 0" by simp
  have e: "\<exists>(r, s) \<in> set failing_reads. s \<noteq> timeout" by (simp add: failing_reads_def)
  note main = reader_loop_ends_on_exit_signal_only [of failing_reads ?r "tl failing_reads"]
  from main e have a: "\<exists>tr. read_thread_func failing_reads = Some tr" by blast
  from main h f have c: "read_thread_func failing_reads =
       map_option (\<lambda>tr. EvRead ?r # EvWaitFor timeout # tr) (read_thread_func (tl failing_reads))"
    by simp
  from a c h show ?thesis by simp
qed

text \<open>
  The claim as stated fails on the same script: after the read that returned \<open>-1\<close> the
  loop reads twice more and dispatches a frame.
\<close>

theorem reader_loop_read_error_counterexample:
  "read_thread_func failing_reads =
     Some [EvRead \<lparr>len = - 1, topic_ID = 0, data = []\<rparr>, EvWaitFor timeout,
           EvRead \<lparr>len = 0, topic_ID = 0, data = []\<rparr>, EvWaitFor timeout,
           EvRead \<lparr>len = 2, topic_ID = 5, data = [8, 9, 0]\<rparr>, EvDispatch 5 [8, 9],
           EvWaitFor ready]"
  by (simp add: failing_reads_def payload_def)

subsection \<open>C4\<close>




subsection \<open>C5\<close>

text \<open>
  Claim C5, as amended. The claim says that the negotiation falls back to the static table
  when its timeout expires. It does not: when the parameter
  \<^verbatim>\<open>dynamic_serial_mapping_ms\<close> is positive and the timeout expires with no frame on
  topic 1, the constructor's table is the exception of the negotiation ("no response",
  or "failed to write"), whatever the node's parameters are. The table comes from the
  node's parameters only when \<^verbatim>\<open>dynamic_serial_mapping_ms\<close> is not positive, and then
  the transporter is not used at all.
\<close>

theorem no_fallback_to_static_table:
  "(0 <s ms \<and> iterations w = pre @ (r, now) # post \<and>
    (\<forall>(r', now') \<in> set pre. \<not> is_response r' \<and> elapsed_ms (start_time w) now' < ms) \<and>
    \<not> is_response r \<and> \<not> elapsed_ms (start_time w) now < ms \<longrightarrow>
      snd (topic_names_and_serialization x w params ms) =
        Some (Inl (if write_result w < 0 then FailedToWriteDynamicMessage
                   else NoResponseToDynamicSerialRequest)))
   \<and> (\<not> 0 <s ms \<longrightarrow>
        topic_names_and_serialization x w params ms =
          ([], Some (parse_node_parameters_for_topics x params)))"
proof -
  have "snd (dynamically_get_serial_mapping x w ms) =
           Some (Inl (if write_result w < 0 then FailedToWriteDynamicMessage
                      else NoResponseToDynamicSerialRequest))"
    if "iterations w = pre @ (r, now) # post"
      "\<forall>(r', now') \<in> set pre. \<not> is_response r' \<and> elapsed_ms (start_time w) now' < ms"
      "\<not> is_response r" "\<not> elapsed_ms (start_time w) now < ms"
  proof -
    have "snd (wait_for_response x ms (start_time w) 0 (iterations w)) = Some (Inr None)"
      using wait_for_response_skip [OF that(2), of x 0 "(r, now) # post"]
        wait_for_response_expired [OF that(3,4), of x 0 post] that(1)
      by simp
    then show ?thesis
      by (auto simp: dynamically_get_serial_mapping_def split: prod.splits)
  qed
  then show ?thesis by (simp add: topic_names_and_serialization_def)
qed

text \<open>
  The theorem in the silent world, with a budget of 100 ms and with a budget of 0.
\<close>

theorem no_fallback_to_static_table_witness:
  "0 <s (100 :: 64 word)
   \<and> snd (topic_names_and_serialization example_externals silent_world example_params 100) =
       Some (Inl NoResponseToDynamicSerialRequest)
   \<and> \<not> 0 <s (0 :: 64 word)
   \<and> topic_names_and_serialization example_externals silent_world example_params 0 =
       ([], Some (parse_node_parameters_for_topics example_externals example_params))"
proof -
  let ?r1 = "\<lparr>len = 0, topic_ID = 0, data = []\<rparr> :: read_result"
  let ?r2 = "\<lparr>len = - 1, topic_ID = 1, data = [1]\<rparr> :: read_result"
  let ?r3 = "\<lparr>len = 1, topic_ID = 1, data = [1]\<rparr> :: read_result"
  have h0: "0 <s (100 :: 64 word)" by (rule sless_100)
  have h1: "iterations silent_world = [(?r1, 1050000000)] @ (?r2, 1120000000) # [(?r3, 1130000000)]"
    by (simp add: silent_world_def)
  have h2: "\<forall>(r', now') \<in> set [(?r1, 1050000000)].
      \<not> is_response r' \<and> elapsed_ms (start_time silent_world) now' < 100"
    by (simp add: silent_world_def eval_defs)
  have h3: "\<not> is_response ?r2" by (simp add: eval_defs)
  have h4: "\<not> elapsed_ms (start_time silent_world) 1120000000 < 100"
    by (simp add: silent_world_def eval_defs)
  have h5: "\<not> 0 <s (0 :: 64 word)" by simp
  have a: "snd (topic_names_and_serialization example_externals silent_world example_params 100) =
       Some (Inl NoResponseToDynamicSerialRequest)"
    using no_fallback_to_static_table
      [of 100 silent_world "[(?r1, 1050000000)]" ?r2 1120000000 "[(?r3, 1130000000)]"
        example_externals example_params]
      h0 h1 h2 h3 h4
    by (simp add: silent_world_def)
  have b: "topic_names_and_serialization example_externals silent_world example_params 0 =
       ([], Some (parse_node_parameters_for_topics example_externals example_params))"
    using no_fallback_to_static_table [of 0 silent_world _ _ _ _ example_externals example_params]
      h5 by blast
  from h0 a h5 b show ?thesis by blast
qed

text \<open>
  The claim as stated fails there: the node's parameters describe a table for
  \<open>chatter\<close>, and the start-up with a budget of 100 ms ends with the exception instead.
\<close>

theorem static_fallback_counterexample:
  "snd (topic_names_and_serialization example_externals silent_world example_params 100) =
     Some (Inl NoResponseToDynamicSerialRequest)
   \<and> parse_node_parameters_for_topics example_externals example_params =
       Inr [''chatter'' \<mapsto> \<lparr>serial_mapping = 1, type = ''std_msgs/String'',
                                direction = SERIAL_TO_ROS2\<rparr>]"
proof -
  have "snd (dynamically_get_serial_mapping example_externals silent_world 100) =
     Some (Inl NoResponseToDynamicSerialRequest)"
    by (simp add: dynamically_get_serial_mapping_def silent_world_def eval_defs)
  then show ?thesis
    by (simp add: example_params_table topic_names_and_serialization_def sless_100)
qed

subsection \<open>C6\<close>



subsection \<open>C7\<close>

text \<open>
  Claim C7. When the table is built from a response, every entry of a returned table has
  the direction that corresponds to the direction code at an index of its name
  (\<^verbatim>\<open>SERIALTOROS2\<close> gives \<^verbatim>\<open>SERIAL_TO_ROS2\<close>, \<^verbatim>\<open>ROS2TOSERIAL\<close> gives
  \<^verbatim>\<open>ROS2_TO_SERIAL\<close>) and never \<^verbatim>\<open>UNKNOWN\<close>; a response holding any other code makes
  the negotiation throw; and a response of equal lengths whose codes are all known is
  accepted, with a table that holds, for every name, an entry whose direction is the
  translation of the code at the last index of that name.
\<close>

theorem direction_codes_translated:
  assumes "snd (wait_for_response x wait_ms (start_time w) 0 (iterations w)) = Some (Inr (Some msg))"
    and "0 \<le> write_result w"
  shows "(\<forall>t name e. snd (dynamically_get_serial_mapping x w wait_ms) = Some (Inr t) \<and>
            t name = Some e \<longrightarrow>
            direction e \<noteq> UNKNOWN \<and>
            (\<exists>i < length (topic_names msg). topic_names msg ! i = name \<and>
               (directions msg ! i = SERIALTOROS2 x \<and> direction e = SERIAL_TO_ROS2 \<or>
                directions msg ! i = ROS2TOSERIAL x \<and> direction e = ROS2_TO_SERIAL)))
       \<and> ((\<exists>i < length (directions msg).
              directions msg ! i \<noteq> SERIALTOROS2 x \<and> directions msg ! i \<noteq> ROS2TOSERIAL x) \<longrightarrow>
            snd (dynamically_get_serial_mapping x w wait_ms) =
              Some (Inl (if length (topic_names msg) = length (serial_mappings msg) \<and>
                            length (topic_names msg) = length (types msg) \<and>
                            length (topic_names msg) = length (directions msg)
                         then UnknownDirectionForTopic else MustAllBeTheSameSize)))
       \<and> (length (topic_names msg) = length (serial_mappings msg) \<and>
          length (topic_names msg) = length (types msg) \<and>
          length (topic_names msg) = length (directions msg) \<and>
          (\<forall>i < length (directions msg).
             directions msg ! i = SERIALTOROS2 x \<or> directions msg ! i = ROS2TOSERIAL x) \<longrightarrow>
          (\<exists>t. snd (dynamically_get_serial_mapping x w wait_ms) = Some (Inr t) \<and>
             (\<forall>i < length (topic_names msg).
                (\<forall>j. i < j \<and> j < length (topic_names msg) \<longrightarrow>
                     topic_names msg ! j \<noteq> topic_names msg ! i) \<longrightarrow>
                (\<exists>e. t (topic_names msg ! i) = Some e \<and>
                     (directions msg ! i = SERIALTOROS2 x \<longrightarrow> direction e = SERIAL_TO_ROS2) \<and>
                     (directions msg ! i \<noteq> SERIALTOROS2 x \<longrightarrow>
                        directions msg ! i = ROS2TOSERIAL x \<and> direction e = ROS2_TO_SERIAL)))))"
proof -
  note res = dynamically_get_serial_mapping_response [OF assms]
  have a: "direction e \<noteq> UNKNOWN \<and>
            (\<exists>i < length (topic_names msg). topic_names msg ! i = name \<and>
               (directions msg ! i = SERIALTOROS2 x \<and> direction e = SERIAL_TO_ROS2 \<or>
                directions msg ! i = ROS2TOSERIAL x \<and> direction e = ROS2_TO_SERIAL))"
    if "snd (dynamically_get_serial_mapping x w wait_ms) = Some (Inr t)" "t name = Some e"
    for t name e
  proof -
    from that res have "table_of_response x msg = Inr t" by simp
    from table_of_response_entry [OF this that(2)] obtain i
      where i: "i < length (topic_names msg)" "topic_names msg ! i = name"
        and e: "e = \<lparr>serial_mapping = serial_mappings msg ! i, type = types msg ! i,
                direction = (if directions msg ! i = SERIALTOROS2 x then SERIAL_TO_ROS2
                             else ROS2_TO_SERIAL)\<rparr>"
        and k: "directions msg ! i = SERIALTOROS2 x \<or> directions msg ! i = ROS2TOSERIAL x"
      by blast
    have "directions msg ! i = SERIALTOROS2 x \<and> direction e = SERIAL_TO_ROS2 \<or>
          directions msg ! i = ROS2TOSERIAL x \<and> direction e = ROS2_TO_SERIAL"
      using e k by (cases "directions msg ! i = SERIALTOROS2 x") simp_all
    moreover have "direction e \<noteq> UNKNOWN" using e by simp
    ultimately show ?thesis using i by blast
  qed
  have b: "snd (dynamically_get_serial_mapping x w wait_ms) =
              Some (Inl (if length (topic_names msg) = length (serial_mappings msg) \<and>
                            length (topic_names msg) = length (types msg) \<and>
                            length (topic_names msg) = length (directions msg)
                         then UnknownDirectionForTopic else MustAllBeTheSameSize))"
    if "\<exists>i < length (directions msg).
              directions msg ! i \<noteq> SERIALTOROS2 x \<and> directions msg ! i \<noteq> ROS2TOSERIAL x"
  proof (cases "length (topic_names msg) = length (serial_mappings msg) \<and>
                            length (topic_names msg) = length (types msg) \<and>
                            length (topic_names msg) = length (directions msg)")
    case True
    with that table_of_response_unknown [of msg _ x]
    have "table_of_response x msg = Inl UnknownDirectionForTopic" by blast
    with True res show ?thesis by simp
  next
    case False
    then have "table_of_response x msg = Inl MustAllBeTheSameSize"
      by (auto simp: table_of_response_def)
    with False res show ?thesis by simp
  qed
  have c: "\<exists>t. snd (dynamically_get_serial_mapping x w wait_ms) = Some (Inr t) \<and>
             (\<forall>i < length (topic_names msg).
                (\<forall>j. i < j \<and> j < length (topic_names msg) \<longrightarrow>
                     topic_names msg ! j \<noteq> topic_names msg ! i) \<longrightarrow>
                (\<exists>e. t (topic_names msg ! i) = Some e \<and>
                     (directions msg ! i = SERIALTOROS2 x \<longrightarrow> direction e = SERIAL_TO_ROS2) \<and>
                     (directions msg ! i \<noteq> SERIALTOROS2 x \<longrightarrow>
                        directions msg ! i = ROS2TOSERIAL x \<and> direction e = ROS2_TO_SERIAL)))"
    if h: "length (topic_names msg) = length (serial_mappings msg) \<and>
          length (topic_names msg) = length (types msg) \<and>
          length (topic_names msg) = length (directions msg) \<and>
          (\<forall>i < length (directions msg).
             directions msg ! i = SERIALTOROS2 x \<or> directions msg ! i = ROS2TOSERIAL x)"
  proof -
    from h table_of_response_accepts [of x msg] obtain t
      where t: "table_of_response x msg = Inr t" by auto
    note ae = table_of_response_Inr(4) [OF t]
    note inv = add_entries_upt [OF ae]
    have "\<exists>e. t (topic_names msg ! i) = Some e \<and>
                     (directions msg ! i = SERIALTOROS2 x \<longrightarrow> direction e = SERIAL_TO_ROS2) \<and>
                     (directions msg ! i \<noteq> SERIALTOROS2 x \<longrightarrow>
                        directions msg ! i = ROS2TOSERIAL x \<and> direction e = ROS2_TO_SERIAL)"
      if i: "i < length (topic_names msg)"
        and l: "\<forall>j. i < j \<and> j < length (topic_names msg) \<longrightarrow>
                     topic_names msg ! j \<noteq> topic_names msg ! i" for i
    proof -
      from inv i l have "t (topic_names msg ! i) =
          Some \<lparr>serial_mapping = serial_mappings msg ! i, type = types msg ! i,
                direction = (if directions msg ! i = SERIALTOROS2 x then SERIAL_TO_ROS2
                             else ROS2_TO_SERIAL)\<rparr>"
        by blast
      moreover from h i
      have "directions msg ! i = SERIALTOROS2 x \<or> directions msg ! i = ROS2TOSERIAL x"
        by simp
      ultimately show ?thesis by auto
    qed
    with t res show ?thesis by simp
  qed
  from a b c show ?thesis by blast
qed

text \<open>
  The theorem on a response with codes 1, 1, 0 and on a response with code 9.
\<close>

theorem direction_codes_translated_witness:
  "snd (dynamically_get_serial_mapping example_externals (answering_world 1) 100) =
     Some (Inr [''imu'' \<mapsto> \<lparr>serial_mapping = 6, type = ''sensor_msgs/Imu'',
                            direction = ROS2_TO_SERIAL\<rparr>,
                ''chatter'' \<mapsto> \<lparr>serial_mapping = 7, type = ''std_msgs/Empty'',
                                direction = SERIAL_TO_ROS2\<rparr>])
   \<and> snd (dynamically_get_serial_mapping example_externals (answering_world 3) 100) =
       Some (Inl UnknownDirectionForTopic)"
proof -
  have h1: "snd (wait_for_response example_externals 100 (start_time (answering_world 3)) 0
          (iterations (answering_world 3))) = Some (Inr (Some unknown_direction_response))"
    by (simp add: answering_world_response example_cdr_deserialize_def)
  have h3: "\<exists>i < length (directions unknown_direction_response).
      directions unknown_direction_response ! i \<noteq> SERIALTOROS2 example_externals \<and>
      directions unknown_direction_response ! i \<noteq> ROS2TOSERIAL example_externals"
    by (simp add: unknown_direction_response_def example_externals_def)
  from direction_codes_translated [OF h1 answering_world_write] h3
  have "snd (dynamically_get_serial_mapping example_externals (answering_world 3) 100) =
       Some (Inl UnknownDirectionForTopic)"
    by (simp add: unknown_direction_response_def)
  moreover
  have known: "length (topic_names example_response) = length (serial_mappings example_response) \<and>
      length (topic_names example_response) = length (types example_response) \<and>
      length (topic_names example_response) = length (directions example_response) \<and>
      (\<forall>i < length (directions example_response).
         directions example_response ! i = SERIALTOROS2 example_externals \<or>
         directions example_response ! i = ROS2TOSERIAL example_externals)"
    by (simp add: example_response_def example_externals_def less_Suc_eq)
  from direction_codes_translated [OF answering_world_1_response answering_world_write] known
  have "\<exists>t. snd (dynamically_get_serial_mapping example_externals (answering_world 1) 100) =
       Some (Inr t)"
    by blast
  ultimately show ?thesis using answering_world_1_table by simp
qed

subsection \<open>C8\<close>

text \<open>
  Claim C8. The destructor sets the exit signal, then joins the reader thread, then closes
  the transporter, and does nothing else: these are the three calls it adds, in this
  order, so the thread has been joined and the transporter is still open when
  \<^verbatim>\<open>close\<close> is called.
\<close>

theorem destructor_signals_joins_closes:
  "calls (destructor b) = calls b @ [EvSetValue, EvJoin, EvClose]
   \<and> exit_signal_set (destructor b) \<and> read_thread_joined (destructor b)
   \<and> transporter_closed (destructor b)
   \<and> read_thread_joined (read_thread_join (exit_signal_set_value b))
   \<and> \<not> transporter_closed (read_thread_join (exit_signal_set_value (b\<lparr>transporter_closed := False\<rparr>)))"
  by (simp add: destructor_def transporter_close_def read_thread_join_def
      exit_signal_set_value_def)

subsection \<open>C9\<close>

text \<open>
  Claim C9. The first frame on topic 1 that the codec cannot deserialise aborts the
  negotiation at once: the function throws, and the read of that frame is the last call
  it makes, whatever the rest of the script holds. The reads before it, frames on other
  topics among them, are passed over while the clock reading lies below \<open>wait_ms\<close>.
\<close>

theorem undeserializable_response_aborts:
  assumes "iterations w = pre @ (r, now) # post"
    and "\<forall>(r', now') \<in> set pre. \<not> is_response r' \<and> elapsed_ms (start_time w) now' < wait_ms"
    and "is_response r"
    and "cdr_deserialize x (payload r) = None"
    and "0 \<le> write_result w"
  shows "dynamically_get_serial_mapping x w wait_ms =
           (EvWrite 0 (empty_request x) # map (EvRead \<circ> fst) pre @ [EvRead r],
            Some (Inl NotEnoughMemoryForDeserialization))"
proof -
  have "wait_for_response x wait_ms (start_time w) 0 (iterations w) =
          (map (EvRead \<circ> fst) pre @ [EvRead r], Some (Inl NotEnoughMemoryForDeserialization))"
    using wait_for_response_skip [OF assms(2), of x 0 "(r, now) # post"] assms(1,3,4)
    by simp
  then show ?thesis using assms(5)
    by (simp add: dynamically_get_serial_mapping_def)
qed

text \<open>
  The theorem in a world whose third read is a frame on topic 1 that the codec rejects,
  after a timeout and a frame on topic 7; the valid response that follows is never read.
\<close>

theorem undeserializable_response_aborts_witness:
  "dynamically_get_serial_mapping example_externals (answering_world 0) 100 =
     ([EvWrite 0 [],
       EvRead \<lparr>len = 0, topic_ID = 0, data = []\<rparr>,
       EvRead \<lparr>len = 2, topic_ID = 7, data = [1, 1]\<rparr>,
       EvRead \<lparr>len = 1, topic_ID = 1, data = [0, 0]\<rparr>],
      Some (Inl NotEnoughMemoryForDeserialization))"
proof -
  let ?r1 = "\<lparr>len = 0, topic_ID = 0, data = []\<rparr> :: read_result"
  let ?r2 = "\<lparr>len = 2, topic_ID = 7, data = [1, 1]\<rparr> :: read_result"
  let ?r3 = "\<lparr>len = 1, topic_ID = 1, data = [0, 0]\<rparr> :: read_result"
  let ?r4 = "\<lparr>len = 1, topic_ID = 1, data = [1, 0]\<rparr> :: read_result"
  have h1: "iterations (answering_world 0) =
      [(?r1, 1020000000), (?r2, 1040000000)] @ (?r3, 1060000000) # [(?r4, 1080000000)]"
    by (simp add: answering_world_def)
  have h2: "\<forall>(r', now') \<in> set [(?r1, 1020000000), (?r2, 1040000000)].
      \<not> is_response r' \<and> elapsed_ms (start_time (answering_world 0)) now' < 100"
    by (simp add: answering_world_def eval_defs)
  have h3: "is_response ?r3" by (simp add: eval_defs)
  have h4: "cdr_deserialize example_externals (payload ?r3) = None"
    by (simp add: example_externals_def example_cdr_deserialize_def payload_def)
  have h5: "0 \<le> write_result (answering_world 0)" by (simp add: answering_world_def)
  from undeserializable_response_aborts [OF h1 h2 h3 h4 h5] show ?thesis
    by (simp add: example_externals_def)
qed

subsection \<open>C10\<close>

text \<open>
  Claim C10. The returned table is keyed by topic name: its keys are exactly the names of
  the response, and the entry of a name is built from the serial mapping, type and
  direction code at the last index at which the response holds that name.
\<close>

theorem table_keyed_by_topic_name:
  assumes "snd (wait_for_response x wait_ms (start_time w) 0 (iterations w)) = Some (Inr (Some msg))"
    and "0 \<le> write_result w"
    and "snd (dynamically_get_serial_mapping x w wait_ms) = Some (Inr t)"
  shows "dom t = set (topic_names msg) \<and>
     (\<forall>i < length (topic_names msg).
        (\<forall>j. i < j \<and> j < length (topic_names msg) \<longrightarrow> topic_names msg ! j \<noteq> topic_names msg ! i) \<longrightarrow>
        t (topic_names msg ! i) =
          Some \<lparr>serial_mapping = serial_mappings msg ! i, type = types msg ! i,
                direction = (if directions msg ! i = SERIALTOROS2 x then SERIAL_TO_ROS2
                             else ROS2_TO_SERIAL)\<rparr>)"
proof -
  from assms have "table_of_response x msg = Inr t"
    by (simp add: dynamically_get_serial_mapping_response)
  then have "add_entries x msg [0 ..< length (topic_names msg)] Map.empty = Inr t"
    by (rule table_of_response_Inr)
  note inv = add_entries_upt [OF this]
  have "(\<lambda>i. topic_names msg ! i) ` {..<length (topic_names msg)} = set (topic_names msg)"
    by (auto simp: set_conv_nth)
  with inv show ?thesis by simp
qed

text \<open>
  The theorem on the response that names \<open>chatter\<close> at indices 0 and 2 and \<open>imu\<close> at
  index 1: two entries, the one of \<open>chatter\<close> from index 2.
\<close>

theorem table_keyed_by_topic_name_witness:
  "snd (dynamically_get_serial_mapping example_externals (answering_world 1) 100) =
     Some (Inr [''imu'' \<mapsto> \<lparr>serial_mapping = 6, type = ''sensor_msgs/Imu'',
                            direction = ROS2_TO_SERIAL\<rparr>,
                ''chatter'' \<mapsto> \<lparr>serial_mapping = 7, type = ''std_msgs/Empty'',
                                direction = SERIAL_TO_ROS2\<rparr>])
   \<and> topic_names example_response = [''chatter'', ''imu'', ''chatter'']
   \<and> dom [''imu'' \<mapsto> \<lparr>serial_mapping = 6, type = ''sensor_msgs/Imu'',
                         direction = ROS2_TO_SERIAL\<rparr>,
           ''chatter'' \<mapsto> \<lparr>serial_mapping = 7, type = ''std_msgs/Empty'',
                             direction = SERIAL_TO_ROS2\<rparr>] = {''chatter'', ''imu''}
   \<and> serial_mappings example_response ! 2 = 7"
proof -
  note t = answering_world_1_table
  from table_keyed_by_topic_name [OF answering_world_1_response answering_world_write t]
  show ?thesis using t by (simp add: example_response_def insert_commute)
qed

end
